theory Spec2Isabelle
  imports Complex_Main "HOL-Library.Multiset"
begin

section \<open>The infraction store (DatabaseManager)\<close>

subsection \<open>Data\<close>

datatype InfractionType = WARN | MUTE | KICK | BAN | TIMEOUT

text \<open>
  A row of the table \<open>user_infractions\<close>. The column \<open>created_at\<close> holds the text
  \<open>YYYY-MM-DD HH:MM:SS\<close> that \<open>CURRENT_TIMESTAMP\<close> gives, the UTC date and time of the
  insert. It is kept here as the number of seconds from 1970-01-01 00:00:00 to the date
  and time the text names, which orders the same way as the text does.
\<close>

record row =
  col_id :: string
  user_id :: string
  guild_id :: string
  moderator_id :: string
  col_type :: InfractionType
  col_reason :: string
  created_at :: nat

text \<open>The interface \<open>Infraction\<close> handed to callers.\<close>

record Infraction =
  inf_id :: string
  userId :: string
  guildId :: string
  moderatorId :: string
  inf_type :: InfractionType
  reason :: string
  createdAt :: int

text \<open>
  The state of a \<open>DatabaseManager\<close>: the rows of the table in insertion (rowid) order,
  and whether the connection is still open. Every statement prepared on a closed
  connection throws.
\<close>

record database =
  rows :: "row list"
  is_open :: bool

datatype db_error = ConnectionNotOpen | ConstraintPrimaryKey

text \<open>
  The object literal that both query methods build from a result row. Its creation time
  is \<open>new Date(row.created_at)\<close>. The text carries no zone and is not in the ISO format, so
  the runtime reads it as a date and time of the zone the process runs in, not as UTC.
  \<open>date_of\<close> is that reading: from the seconds the text names to the instant of the
  \<open>Date\<close>, in seconds since the epoch. It depends on the zone of the process and is a
  parameter.
\<close>

definition toInfraction :: "(nat \<Rightarrow> int) \<Rightarrow> row \<Rightarrow> Infraction" where
  "toInfraction date_of r =
     \<lparr>inf_id = col_id r, userId = user_id r, guildId = guild_id r,
      moderatorId = moderator_id r, inf_type = col_type r, reason = col_reason r,
      createdAt = date_of (created_at r)\<rparr>"

subsection \<open>Identifier generation\<close>

definition chars :: string where
  "chars = ''ABCDEFGHIJKLMNOPQRSTUVWXYZ0123456789''"

text \<open>\<open>String.prototype.charAt\<close>: the empty string outside the range.\<close>

definition charAt :: "string \<Rightarrow> int \<Rightarrow> string" where
  "charAt s i = (if 0 \<le> i \<and> i < int (length s) then [s ! nat i] else [])"

text \<open>
  Doubles. A pair \<open>(m, e)\<close> stands for the number \<open>m / 2 ^ e\<close>. \<open>Math.random()\<close>
  returns a double that is at least 0 and below 1; every such double is \<open>m / 2 ^ e\<close> for
  some \<open>m\<close> below \<open>2 ^ 53\<close> and some \<open>e\<close> up to 1074.
\<close>

type_synonym double = "nat \<times> nat"


text \<open>
  The product of a double \<open>m / 2 ^ e\<close> and a whole number \<open>c\<close>, as the processor gives
  it: the exact product \<open>m * c / 2 ^ e\<close> with its numerator rounded to 53 significant
  bits, to the nearest and in a tie to the even one. \<open>shift n\<close> is the number of low
  bits of \<open>n\<close> that do not fit; the rounded numerator keeps the exponent \<open>e\<close>. With
  \<open>e\<close> up to 1074 no product is too small to be a double.
\<close>

fun shift :: "nat \<Rightarrow> nat" where
  "shift n = (if n < 2 ^ 53 then 0 else Suc (shift (n div 2)))"

declare shift.simps [simp del]

definition round53 :: "nat \<Rightarrow> nat" where
  "round53 n =
     (let s = shift n; q = n div 2 ^ s; r = n mod 2 ^ s
      in if 2 * r > 2 ^ s \<or> (2 * r = 2 ^ s \<and> odd q) then (q + 1) * 2 ^ s else q * 2 ^ s)"

definition double_times :: "double \<Rightarrow> nat \<Rightarrow> double" where
  "double_times d c = (round53 (fst d * c), snd d)"

definition Math_floor :: "double \<Rightarrow> int" where
  "Math_floor d = int (fst d div 2 ^ snd d)"

text \<open>
  The random source is a sequence \<open>rnd\<close> of doubles: \<open>rnd n\<close> is what the \<open>n\<close>-th call of
  \<open>Math.random()\<close> returns, and \<open>pos\<close> is the number of calls already made. One
  identifier takes eight draws; each contributes
  \<open>chars.charAt(Math.floor(Math.random() * chars.length))\<close>, appended from left to right.
\<close>

definition generateInfractionId :: "(nat \<Rightarrow> double) \<Rightarrow> nat \<Rightarrow> string" where
  "generateInfractionId rnd pos =
     concat (map (\<lambda>i. charAt chars (Math_floor (double_times (rnd (pos + i)) (length chars))))
               [0..<8])"


definition isInfractionIdUnique :: "database \<Rightarrow> string \<Rightarrow> db_error + bool" where
  "isInfractionIdUnique db i =
     (if \<not> is_open db then Inl ConnectionNotOpen
      else Inr (length (filter (\<lambda>r. col_id r = i) (rows db)) = 0))"

text \<open>
  The do-while loop of \<open>getUniqueInfractionId\<close>. It has no bound, so the model is a
  partial function: \<open>None\<close> is the loop that never leaves. A result carries the
  position of the next unread draw.
\<close>

partial_function (option) getUniqueInfractionId ::
  "database \<Rightarrow> (nat \<Rightarrow> double) \<Rightarrow> nat \<Rightarrow> (db_error + string \<times> nat) option" where
  "getUniqueInfractionId db rnd pos =
     (let i = generateInfractionId rnd pos in
      case isInfractionIdUnique db i of
        Inl e \<Rightarrow> Some (Inl e)
      | Inr unique \<Rightarrow>
          if unique then Some (Inr (i, pos + 8))
          else getUniqueInfractionId db rnd (pos + 8))"

subsection \<open>Writing\<close>

text \<open>
  The \<open>INSERT\<close> statement. \<open>id\<close> is the primary key of the table, so the engine
  refuses a row whose id is already there; \<open>created_at\<close> takes its default, the
  clock reading \<open>now\<close>.
\<close>

definition insert_row ::
  "database \<Rightarrow> nat \<Rightarrow> string \<Rightarrow> string \<Rightarrow> string \<Rightarrow> string \<Rightarrow> InfractionType \<Rightarrow> string
     \<Rightarrow> db_error + database" where
  "insert_row db now i u g m t r =
     (if \<not> is_open db then Inl ConnectionNotOpen
      else if i \<in> set (map col_id (rows db)) then Inl ConstraintPrimaryKey
      else Inr (db\<lparr>rows := rows db @
             [\<lparr>col_id = i, user_id = u, guild_id = g, moderator_id = m, col_type = t,
               col_reason = r, created_at = now\<rparr>]\<rparr>))"

definition addInfraction ::
  "database \<Rightarrow> (nat \<Rightarrow> double) \<Rightarrow> nat \<Rightarrow> nat \<Rightarrow> string \<Rightarrow> string \<Rightarrow> string \<Rightarrow> InfractionType
     \<Rightarrow> string \<Rightarrow> (db_error + string \<times> database \<times> nat) option" where
  "addInfraction db rnd pos now u g m t r =
     (case getUniqueInfractionId db rnd pos of
        None \<Rightarrow> None
      | Some (Inl e) \<Rightarrow> Some (Inl e)
      | Some (Inr (i, pos')) \<Rightarrow>
          (case insert_row db now i u g m t r of
             Inl e \<Rightarrow> Some (Inl e)
           | Inr db' \<Rightarrow> Some (Inr (i, db', pos'))))"

definition addWarning ::
  "database \<Rightarrow> (nat \<Rightarrow> double) \<Rightarrow> nat \<Rightarrow> nat \<Rightarrow> string \<Rightarrow> string \<Rightarrow> string \<Rightarrow> string
     \<Rightarrow> (db_error + string \<times> database \<times> nat) option" where
  "addWarning db rnd pos now u g m r = addInfraction db rnd pos now u g m WARN r"

subsection \<open>Reading\<close>

text \<open>
  The \<open>WHERE\<close> clause shared by \<open>getUserInfractions\<close> and \<open>getInfractionCount\<close>:
  \<open>AND type = ?\<close> is added only when a type is passed.
\<close>

definition matches :: "string \<Rightarrow> string \<Rightarrow> InfractionType option \<Rightarrow> row \<Rightarrow> bool" where
  "matches u g t r =
     (user_id r = u \<and> guild_id r = g \<and> (case t of None \<Rightarrow> True | Some ty \<Rightarrow> col_type r = ty))"

text \<open>
  \<open>ORDER BY created_at DESC\<close> is the engine's work and the query names no second
  sort key. The engine is therefore a parameter \<open>ob\<close>, which maps the selected rows
  (in rowid order) to the rows in result order; \<open>order_by_created_at_desc\<close> is what
  SQL promises of it.
\<close>

definition order_by_created_at_desc :: "(row list \<Rightarrow> row list) \<Rightarrow> bool" where
  "order_by_created_at_desc ob =
     (\<forall>xs. mset (ob xs) = mset xs \<and> sorted_wrt (\<lambda>a b. created_at b \<le> created_at a) (ob xs))"

text \<open>
  A stable sorter is one engine that keeps the promise: rows with equal \<open>created_at\<close>
  stay in rowid order, as they leave SQLite's merge sorter.
\<close>

definition stable_sorter :: "row list \<Rightarrow> row list" where
  "stable_sorter xs = sort_key (\<lambda>r. - int (created_at r)) xs"

definition getUserInfractions ::
  "(row list \<Rightarrow> row list) \<Rightarrow> (nat \<Rightarrow> int) \<Rightarrow> database \<Rightarrow> string \<Rightarrow> string
     \<Rightarrow> InfractionType option \<Rightarrow> db_error + Infraction list" where
  "getUserInfractions ob date_of db u g t =
     (if \<not> is_open db then Inl ConnectionNotOpen
      else Inr (map (toInfraction date_of) (ob (filter (matches u g t) (rows db)))))"

definition getInfractionCount ::
  "database \<Rightarrow> string \<Rightarrow> string \<Rightarrow> InfractionType option \<Rightarrow> db_error + nat" where
  "getInfractionCount db u g t =
     (if \<not> is_open db then Inl ConnectionNotOpen
      else Inr (length (filter (matches u g t) (rows db))))"

definition getInfractionById ::
  "(nat \<Rightarrow> int) \<Rightarrow> database \<Rightarrow> string \<Rightarrow> db_error + Infraction option" where
  "getInfractionById date_of db i =
     (if \<not> is_open db then Inl ConnectionNotOpen
      else Inr (case find (\<lambda>r. col_id r = i) (rows db) of
                  None \<Rightarrow> None
                | Some r \<Rightarrow> Some (toInfraction date_of r)))"

subsection \<open>The other public methods\<close>

text \<open>\<open>close()\<close> closes the connection; closing a closed connection does nothing.\<close>

definition close :: "database \<Rightarrow> database" where
  "close db = db\<lparr>is_open := False\<rparr>"

text \<open>
  \<open>backup(path)\<close> starts the engine's backup and drops the promise it gets: the call
  returns whatever becomes of the backup (on a closed connection the dropped promise
  rejects later), and the table is only read.
\<close>

definition backup :: "database \<Rightarrow> string \<Rightarrow> db_error + unit" where
  "backup db backupPath = Inr ()"

record stats =
  infractions :: nat
  warns :: nat
  mutes :: nat
  kicks :: nat
  bans :: nat
  timeouts :: nat

definition count_type :: "database \<Rightarrow> InfractionType \<Rightarrow> nat" where
  "count_type db t = length (filter (\<lambda>r. col_type r = t) (rows db))"

definition getStats :: "database \<Rightarrow> db_error + stats" where
  "getStats db =
     (if \<not> is_open db then Inl ConnectionNotOpen
      else Inr \<lparr>infractions = length (rows db), warns = count_type db WARN,
                mutes = count_type db MUTE, kicks = count_type db KICK,
                bans = count_type db BAN, timeouts = count_type db TIMEOUT\<rparr>)"

subsection \<open>Sequences of calls\<close>

datatype store_op =
    AddInfraction string string string InfractionType string
  | AddWarning string string string string
  | GetUserInfractions string string "InfractionType option"
  | GetInfractionCount string string "InfractionType option"
  | GetInfractionById string
  | Close
  | Backup string
  | GetStats

text \<open>
  One call of a public method, made at clock reading \<open>now\<close>, on the store \<open>db\<close> with
  \<open>pos\<close> draws consumed: the store and the number of draws consumed afterwards, whether
  the call returned or threw (a caller may catch and go on). \<open>None\<close> is the call that
  never returns. The reading methods only run \<open>SELECT\<close> statements and leave both as
  they are. A call of \<open>addInfraction\<close> that throws has thrown in the first uniqueness check,
  after eight draws.
\<close>

fun run_op ::
  "(nat \<Rightarrow> double) \<Rightarrow> nat \<times> store_op \<Rightarrow> database \<times> nat \<Rightarrow> (database \<times> nat) option" where
  "run_op rnd (now, AddInfraction u g m t r) (db, pos) =
     (case addInfraction db rnd pos now u g m t r of
        None \<Rightarrow> None
      | Some (Inl e) \<Rightarrow> Some (db, pos + 8)
      | Some (Inr (i, db', pos')) \<Rightarrow> Some (db', pos'))"
| "run_op rnd (now, AddWarning u g m r) (db, pos) =
     (case addWarning db rnd pos now u g m r of
        None \<Rightarrow> None
      | Some (Inl e) \<Rightarrow> Some (db, pos + 8)
      | Some (Inr (i, db', pos')) \<Rightarrow> Some (db', pos'))"
| "run_op rnd (now, GetUserInfractions u g t) (db, pos) = Some (db, pos)"
| "run_op rnd (now, GetInfractionCount u g t) (db, pos) = Some (db, pos)"
| "run_op rnd (now, GetInfractionById i) (db, pos) = Some (db, pos)"
| "run_op rnd (now, Close) (db, pos) = Some (close db, pos)"
| "run_op rnd (now, Backup p) (db, pos) = Some (db, pos)"
| "run_op rnd (now, GetStats) (db, pos) = Some (db, pos)"

fun run_ops ::
  "(nat \<Rightarrow> double) \<Rightarrow> (nat \<times> store_op) list \<Rightarrow> database \<times> nat
     \<Rightarrow> (database \<times> nat) option" where
  "run_ops rnd [] s = Some s"
| "run_ops rnd (x # xs) s =
     (case run_op rnd x s of None \<Rightarrow> None | Some s' \<Rightarrow> run_ops rnd xs s')"

section \<open>Effects, exceptions and the registry\<close>

text \<open>
  A thrown value, kept as the text that \<open>String(err)\<close> gives; wrapping a value that
  is no \<open>Error\<close> into \<open>new Error(String(err))\<close> changes nothing of it here.
\<close>

datatype js_error = JsError string

datatype console_level = Console_log | Console_info | Console_warn | Console_error

text \<open>
  What a run does to the outside, in order: a \<open>console\<close> call (with the error object it
  is passed, if any), and the calls \<open>interaction.reply\<close> and \<open>interaction.followUp\<close> with
  the content and the \<open>ephemeral\<close> flag of the message.
\<close>

datatype effect =
    Console console_level string "js_error option"
  | Reply string bool
  | FollowUp string bool

text \<open>
  The outcome of a run: the effects it had, and the value it threw, if it threw
  (for an \<open>async\<close> function: the value its promise rejected with).
\<close>

type_synonym outcome = "effect list \<times> js_error option"

definition then_do :: "outcome \<Rightarrow> outcome \<Rightarrow> outcome" where
  "then_do a b = (case snd a of None \<Rightarrow> (fst a @ fst b, snd b) | Some e \<Rightarrow> a)"

definition try_catch :: "outcome \<Rightarrow> (js_error \<Rightarrow> outcome) \<Rightarrow> outcome" where
  "try_catch a h =
     (case snd a of None \<Rightarrow> a | Some e \<Rightarrow> (fst a @ fst (h e), snd (h e)))"

definition console :: "console_level \<Rightarrow> string \<Rightarrow> js_error option \<Rightarrow> outcome" where
  "console l msg err = ([Console l msg err], None)"

fun string_of_nat :: "nat \<Rightarrow> string" where
  "string_of_nat n =
     (if n < 10 then [''0123456789'' ! n]
      else string_of_nat (n div 10) @ [''0123456789'' ! (n mod 10)])"

declare string_of_nat.simps [simp del]

fun join_with :: "string \<Rightarrow> string list \<Rightarrow> string" where
  "join_with sep [] = []"
| "join_with sep [x] = x"
| "join_with sep (x # y # ys) = x @ sep @ join_with sep (y # ys)"

datatype interaction_kind =
    ChatInputCommand string
  | Button string
  | StringSelectMenu string
  | ModalSubmit string
  | OtherInteraction

text \<open>
  An interaction: its kind with \<open>commandName\<close> or \<open>customId\<close>, the tag of the user, the
  flags \<open>replied\<close> and \<open>deferred\<close>, and what the platform does with a \<open>reply\<close> or
  \<open>followUp\<close> on it (\<open>None\<close>: the message is sent; \<open>Some e\<close>: the call rejects with
  \<open>e\<close>). Kinds that none of the four type guards accepts (autocomplete, context menu,
  the other select menus) are \<open>OtherInteraction\<close>.
\<close>

record interaction =
  kind :: interaction_kind
  user_tag :: string
  replied :: bool
  deferred :: bool
  send_fails :: "js_error option"

text \<open>
  What running a command's \<open>execute\<close> on an interaction does: its own effects, the value
  it threw (if any), the flags of the interaction afterwards and the time it took.
\<close>

record handler_result =
  emitted :: "effect list"
  thrown :: "js_error option"
  replied_after :: bool
  deferred_after :: bool
  duration_ms :: nat

type_synonym handler = "interaction \<Rightarrow> handler_result"

text \<open>
  A registered command: the \<open>name\<close> of its \<open>data\<close> (\<open>None\<close> when \<open>data\<close> has no
  name) and its \<open>execute\<close>.
\<close>

record command =
  data_name :: "string option"
  cmd_execute :: handler

text \<open>
  A discord.js \<open>Collection\<close> is a \<open>Map\<close>: \<open>set\<close> on a key it holds replaces the value
  where it stands, \<open>set\<close> on a new key appends. The keys of the client's collections
  are strings, or the value \<open>undefined\<close> when discovery read a name that is not there.
\<close>

type_synonym ('k, 'v) collection = "('k \<times> 'v) list"

fun collection_set :: "'k \<Rightarrow> 'v \<Rightarrow> ('k, 'v) collection \<Rightarrow> ('k, 'v) collection" where
  "collection_set k v [] = [(k, v)]"
| "collection_set k v ((k', v') # kvs) =
     (if k' = k then (k, v) # kvs else (k', v') # collection_set k v kvs)"

definition collection_get :: "('k, 'v) collection \<Rightarrow> 'k \<Rightarrow> 'v option" where
  "collection_get c k = map_of c k"

definition collection_has :: "('k, 'v) collection \<Rightarrow> 'k \<Rightarrow> bool" where
  "collection_has c k = (k \<in> set (map fst c))"

datatype map_key = Key string | Undefined

definition key_of :: "string option \<Rightarrow> map_key" where
  "key_of v = (case v of None \<Rightarrow> Undefined | Some s \<Rightarrow> Key s)"

text \<open>A registered button, modal or select menu: its \<open>customId\<close> and its \<open>execute\<close>.\<close>

record component =
  component_id :: "string option"
  component_execute :: handler

record client =
  commands :: "(map_key, command) collection"
  buttons :: "(map_key, component) collection"
  modals :: "(map_key, component) collection"
  selectMenus :: "(map_key, component) collection"

section \<open>The dispatcher (interactionCreate)\<close>

text \<open>\<open>interaction.reply\<close> or \<open>interaction.followUp\<close>: the call is made, and may reject.\<close>

definition send :: "interaction \<Rightarrow> string \<Rightarrow> outcome" where
  "send i userMessage =
     ([if replied i \<or> deferred i then FollowUp userMessage True else Reply userMessage True],
      send_fails i)"

definition sendErrorResponse :: "interaction \<Rightarrow> string \<Rightarrow> outcome" where
  "sendErrorResponse i userMessage =
     try_catch (send i userMessage)
       (\<lambda>replyErr. console Console_error ''Failed to reply with error:'' (Some replyErr))"

definition run_handler :: "command \<Rightarrow> interaction \<Rightarrow> outcome" where
  "run_handler c i = (emitted (cmd_execute c i), thrown (cmd_execute c i))"

text \<open>
  \<open>has\<close> and \<open>get\<close> of a \<open>Map\<close> agree (\<open>collection_has_get\<close> below), so the test
  \<open>!commands?.has(commandName)\<close> is the case \<open>None\<close> of the lookup. The flags that
  \<open>sendErrorResponse\<close> reads after a handler threw are those the handler left.
\<close>

definition handleChatInputCommand :: "client \<Rightarrow> interaction \<Rightarrow> string \<Rightarrow> outcome" where
  "handleChatInputCommand cl i commandName =
     (case collection_get (commands cl) (Key commandName) of
        None \<Rightarrow>
          then_do (console Console_warn (''Unknown command: '' @ commandName) None)
            (sendErrorResponse i (''Command `'' @ commandName @ ''` not found.''))
      | Some c \<Rightarrow>
          try_catch
            (then_do
               (console Console_log (''Running /'' @ commandName @ '' by '' @ user_tag i) None)
               (then_do (run_handler c i)
                  (console Console_log
                     (commandName @ '' executed in '' @
                        string_of_nat (duration_ms (cmd_execute c i)) @ ''ms'') None)))
            (\<lambda>err.
               then_do
                 (console Console_error (''Error in command '' @ commandName @ '':'') (Some err))
                 (sendErrorResponse
                    (i\<lparr>replied := replied_after (cmd_execute c i),
                       deferred := deferred_after (cmd_execute c i)\<rparr>)
                    ''Something went wrong while executing the command.'')))"

definition handleButtonInteraction :: "interaction \<Rightarrow> string \<Rightarrow> outcome" where
  "handleButtonInteraction i customId =
     then_do (console Console_log (''Button: '' @ customId @ '' by '' @ user_tag i) None)
       (try_catch
          (if customId = ''ping_refresh'' then ([], None)
           else console Console_info (''Unhandled button: '' @ customId) None)
          (\<lambda>err. console Console_error (''Button error ('' @ customId @ ''):'') (Some err)))"

definition handleSelectMenuInteraction :: "interaction \<Rightarrow> string \<Rightarrow> outcome" where
  "handleSelectMenuInteraction i customId =
     then_do (console Console_log (''Select Menu: '' @ customId @ '' by '' @ user_tag i) None)
       (try_catch
          (console Console_info (''Unhandled select menu: '' @ customId) None)
          (\<lambda>err. console Console_error (''Select menu error ('' @ customId @ ''):'') (Some err)))"

definition handleModalInteraction :: "interaction \<Rightarrow> string \<Rightarrow> outcome" where
  "handleModalInteraction i customId =
     then_do (console Console_log (''Modal: '' @ customId @ '' by '' @ user_tag i) None)
       (try_catch
          (console Console_info (''Unhandled modal: '' @ customId) None)
          (\<lambda>err. console Console_error (''Modal error ('' @ customId @ ''):'') (Some err)))"

definition execute :: "client \<Rightarrow> interaction \<Rightarrow> outcome" where
  "execute cl i =
     try_catch
       (case kind i of
          ChatInputCommand commandName \<Rightarrow> handleChatInputCommand cl i commandName
        | Button customId \<Rightarrow> handleButtonInteraction i customId
        | StringSelectMenu customId \<Rightarrow> handleSelectMenuInteraction i customId
        | ModalSubmit customId \<Rightarrow> handleModalInteraction i customId
        | OtherInteraction \<Rightarrow> ([], None))
       (\<lambda>error. console Console_error ''Unexpected interaction handling error:'' (Some error))"


section \<open>Discovery (index.ts)\<close>

text \<open>
  What \<open>await import(filePath)\<close> gives for a candidate file: the import rejects; the
  module has no default export; or it has one, with or without the key property and
  with or without \<open>execute\<close>. \<open>'p\<close> is what the key property holds when it is there. For
  a command it is \<open>data\<close>: \<open>null\<close> or \<open>undefined\<close>, or an object with or without a
  \<open>name\<close>. For a component it is \<open>customId\<close>: a string or \<open>undefined\<close>. A directory
  listing is given as the files left by the filter on \<open>.ts\<close> and \<open>.js\<close>, each with its
  path.
\<close>

datatype 'p candidate =
    Unloadable js_error
  | NoDefault
  | Default "'p option" "handler option"

datatype data_value = Nullish | Data "string option"

text \<open>The errors of the \<open>in\<close> operator on \<open>undefined\<close> and of reading \<open>name\<close> off nothing.\<close>

definition in_undefined :: "string \<Rightarrow> js_error" where
  "in_undefined prop =
     JsError (''TypeError: Cannot use 'in' operator to search for '' @ [CHR 0x27] @ prop @
              [CHR 0x27] @ '' in undefined'')"

definition name_of_nullish :: js_error where
  "name_of_nullish = JsError ''TypeError: Cannot read properties of undefined (reading 'name')''"

text \<open>How a template literal prints a name or id that may be \<open>undefined\<close>.\<close>

definition shown :: "string option \<Rightarrow> string" where
  "shown v = (case v of None \<Rightarrow> ''undefined'' | Some s \<Rightarrow> s)"

fun load_command_files ::
  "(string \<times> data_value candidate) list \<Rightarrow> (map_key, command) collection \<times> effect list
     \<Rightarrow> ((map_key, command) collection \<times> effect list) \<times> js_error option" where
  "load_command_files [] (reg, out) = ((reg, out), None)"
| "load_command_files ((filePath, cand) # files) (reg, out) =
     (case cand of
        Unloadable e \<Rightarrow> ((reg, out), Some e)
      | NoDefault \<Rightarrow> ((reg, out), Some (in_undefined ''data''))
      | Default None ex \<Rightarrow>
          load_command_files files
            (reg, out @ [Console Console_warn
                          (''Command in '' @ filePath @ '' is missing required properties.'') None])
      | Default (Some d) None \<Rightarrow>
          load_command_files files
            (reg, out @ [Console Console_warn
                          (''Command in '' @ filePath @ '' is missing required properties.'') None])
      | Default (Some Nullish) (Some h) \<Rightarrow> ((reg, out), Some name_of_nullish)
      | Default (Some (Data n)) (Some h) \<Rightarrow>
          load_command_files files
            (collection_set (key_of n) \<lparr>data_name = n, cmd_execute = h\<rparr> reg,
             out @ [Console Console_log
                      (''Loaded command: '' @ shown n @ '' from '' @ filePath) None]))"

fun load_command_folders ::
  "(string \<times> (string \<times> data_value candidate) list) list
     \<Rightarrow> (map_key, command) collection \<times> effect list
     \<Rightarrow> ((map_key, command) collection \<times> effect list) \<times> js_error option" where
  "load_command_folders [] s = (s, None)"
| "load_command_folders ((folder, files) # rest) s =
     (case load_command_files files s of
        (s', None) \<Rightarrow> load_command_folders rest s'
      | (s', Some e) \<Rightarrow> (s', Some e))"

text \<open>
  \<open>loadCommands\<close>: \<open>dir\<close> is what \<open>readdirSync(commandsPath)\<close> gives, the error it
  throws or the folders with their files. The whole body stands in one \<open>try\<close>.
\<close>

definition loadCommands ::
  "client \<Rightarrow> js_error + (string \<times> (string \<times> data_value candidate) list) list
     \<Rightarrow> client \<times> effect list" where
  "loadCommands cl dir =
     (case dir of
        Inl (JsError msg) \<Rightarrow>
          (cl, [Console Console_error (''Error loading commands: '' @ msg) None])
      | Inr folders \<Rightarrow>
          (case load_command_folders folders
                  (commands cl,
                   [Console Console_log
                      (''Loading commands from folders: '' @ join_with '', '' (map fst folders))
                      None]) of
             ((reg, out), None) \<Rightarrow>
               (cl\<lparr>commands := reg\<rparr>,
                out @ [Console Console_log
                         (''Loaded '' @ string_of_nat (length reg) @ '' commands.'') None])
           | ((reg, out), Some (JsError msg)) \<Rightarrow>
               (cl\<lparr>commands := reg\<rparr>,
                out @ [Console Console_error (''Error loading commands: '' @ msg) None])))"

text \<open>
  The loop shared by \<open>loadButtons\<close>, \<open>loadModals\<close> and \<open>loadSelectMenus\<close>, which differ
  in the collection and in the word of the log line only. The \<open>if\<close> has no \<open>else\<close>.
\<close>

fun load_component_files ::
  "string \<Rightarrow> (string \<times> string option candidate) list
     \<Rightarrow> (map_key, component) collection \<times> effect list
     \<Rightarrow> ((map_key, component) collection \<times> effect list) \<times> js_error option" where
  "load_component_files what [] (reg, out) = ((reg, out), None)"
| "load_component_files what ((filePath, cand) # files) (reg, out) =
     (case cand of
        Unloadable e \<Rightarrow> ((reg, out), Some e)
      | NoDefault \<Rightarrow> ((reg, out), Some (in_undefined ''customId''))
      | Default None ex \<Rightarrow> load_component_files what files (reg, out)
      | Default (Some cid) None \<Rightarrow> load_component_files what files (reg, out)
      | Default (Some cid) (Some h) \<Rightarrow>
          load_component_files what files
            (collection_set (key_of cid) \<lparr>component_id = cid, component_execute = h\<rparr> reg,
             out @ [Console Console_log
                      (''Loaded '' @ what @ '': '' @ shown cid @ '' from '' @ filePath) None]))"

text \<open>
  \<open>dir\<close> is \<open>None\<close> when \<open>existsSync\<close> finds no directory. These three functions
  have no \<open>try\<close> of their own.
\<close>

definition loadButtons ::
  "client \<Rightarrow> (string \<times> string option candidate) list option
     \<Rightarrow> (client \<times> effect list) \<times> js_error option" where
  "loadButtons cl dir =
     (case dir of
        None \<Rightarrow> ((cl, []), None)
      | Some files \<Rightarrow>
          (case load_component_files ''button'' files (buttons cl, []) of
             ((reg, out), err) \<Rightarrow> ((cl\<lparr>buttons := reg\<rparr>, out), err)))"

definition loadModals ::
  "client \<Rightarrow> (string \<times> string option candidate) list option
     \<Rightarrow> (client \<times> effect list) \<times> js_error option" where
  "loadModals cl dir =
     (case dir of
        None \<Rightarrow> ((cl, []), None)
      | Some files \<Rightarrow>
          (case load_component_files ''modal'' files (modals cl, []) of
             ((reg, out), err) \<Rightarrow> ((cl\<lparr>modals := reg\<rparr>, out), err)))"

definition loadSelectMenus ::
  "client \<Rightarrow> (string \<times> string option candidate) list option
     \<Rightarrow> (client \<times> effect list) \<times> js_error option" where
  "loadSelectMenus cl dir =
     (case dir of
        None \<Rightarrow> ((cl, []), None)
      | Some files \<Rightarrow>
          (case load_component_files ''select menu'' files (selectMenus cl, []) of
             ((reg, out), err) \<Rightarrow> ((cl\<lparr>selectMenus := reg\<rparr>, out), err)))"

definition loadInteractions ::
  "client \<Rightarrow> (string \<times> string option candidate) list option
     \<Rightarrow> (string \<times> string option candidate) list option
     \<Rightarrow> (string \<times> string option candidate) list option \<Rightarrow> client \<times> effect list" where
  "loadInteractions cl bdir mdir sdir =
     (case loadButtons cl bdir of
        ((cl1, l1), Some e) \<Rightarrow>
          (cl1, l1 @ [Console Console_error ''Error loading interactions:'' (Some e)])
      | ((cl1, l1), None) \<Rightarrow>
          (case loadModals cl1 mdir of
             ((cl2, l2), Some e) \<Rightarrow>
               (cl2, l1 @ l2 @ [Console Console_error ''Error loading interactions:'' (Some e)])
           | ((cl2, l2), None) \<Rightarrow>
               (case loadSelectMenus cl2 sdir of
                  ((cl3, l3), Some e) \<Rightarrow>
                    (cl3, l1 @ l2 @ l3 @
                       [Console Console_error ''Error loading interactions:'' (Some e)])
                | ((cl3, l3), None) \<Rightarrow>
                    (cl3, l1 @ l2 @ l3 @
                       [Console Console_log
                          (''Total interactions loaded: '' @
                             string_of_nat (length (buttons cl3) + length (modals cl3) +
                                            length (selectMenus cl3))) None]))))"

section \<open>Concrete inputs\<close>

subsection \<open>Concrete stores and draws\<close>

text \<open>
  An empty, open store; a source of draws that always yields the double \<open>0\<close>; and the store
  after the scenario \<open>addInfraction("u1","g1","m1","WARN","spam")\<close> at clock reading
  \<open>100\<close>.
\<close>

definition db0 :: database where
  "db0 = \<lparr>rows = [], is_open = True\<rparr>"

definition zero_draws :: "nat \<Rightarrow> double" where
  "zero_draws = (\<lambda>n. (0, 0))"

definition row_first :: row where
  "row_first = \<lparr>col_id = ''AAAAAAAA'', user_id = ''u1'', guild_id = ''g1'', moderator_id = ''m1'',
     col_type = WARN, col_reason = ''spam'', created_at = 100\<rparr>"

definition db_one :: database where
  "db_one = \<lparr>rows = [row_first], is_open = True\<rparr>"

text \<open>
  Draws whose second identifier is \<open>BAAAAAAA\<close> (the ninth draw is \<open>1 / 32\<close>, all others
  are 0), and the store after a second
  infraction for the same user and guild, added within the same second.
\<close>

definition two_draws :: "nat \<Rightarrow> double" where
  "two_draws = (\<lambda>n. if n = 8 then (1, 5) else (0, 0))"

definition row_second :: row where
  "row_second = \<lparr>col_id = ''BAAAAAAA'', user_id = ''u1'', guild_id = ''g1'', moderator_id = ''m2'',
     col_type = WARN, col_reason = ''flood'', created_at = 100\<rparr>"

definition db_two :: database where
  "db_two = \<lparr>rows = [row_first, row_second], is_open = True\<rparr>"



text \<open>
  Two infractions of one user and guild with the stored times 2026-03-08 02:30:00 and
  2026-03-08 03:10:00, in this order of insertion.
\<close>

definition row_0230 :: row where
  "row_0230 = \<lparr>col_id = ''CAAAAAAA'', user_id = ''u1'', guild_id = ''g1'', moderator_id = ''m1'',
     col_type = WARN, col_reason = ''spam'', created_at = 1772937000\<rparr>"

definition row_0310 :: row where
  "row_0310 = \<lparr>col_id = ''DAAAAAAA'', user_id = ''u1'', guild_id = ''g1'', moderator_id = ''m1'',
     col_type = WARN, col_reason = ''flood'', created_at = 1772939400\<rparr>"

definition db_gap :: database where
  "db_gap = \<lparr>rows = [row_0230, row_0310], is_open = True\<rparr>"

text \<open>
  Two zones. A process in UTC reads the text as the instant it names. A process in
  \<open>America/New_York\<close>, for texts of 8 March 2026: before 03:00:00 the reading is five
  hours later than the text (the times from 02:00:00 to 02:59:59 do not exist in that
  zone that night and are read with the offset in force before the change), from
  03:00:00 on it is four hours later. \<open>1772938800\<close> is 2026-03-08 03:00:00.
\<close>

definition utc_zone :: "nat \<Rightarrow> int" where
  "utc_zone w = int w"

definition new_york_zone :: "nat \<Rightarrow> int" where
  "new_york_zone w = (if w < 1772938800 then int w + 18000 else int w + 14400)"

subsection \<open>Concrete clients and interactions\<close>

definition client0 :: client where
  "client0 = \<lparr>commands = [], buttons = [], modals = [], selectMenus = []\<rparr>"

definition unknown_command :: interaction where
  "unknown_command =
     \<lparr>kind = ChatInputCommand ''unknown'', user_tag = ''ann#0001'', replied = False,
      deferred = False, send_fails = None\<rparr>"

definition autocomplete :: interaction where
  "autocomplete =
     \<lparr>kind = OtherInteraction, user_tag = ''ann#0001'', replied = False, deferred = False,
      send_fails = None\<rparr>"

definition failing_handler :: handler where
  "failing_handler =
     (\<lambda>i. \<lparr>emitted = [], thrown = Some (JsError ''Error: boom''), replied_after = False,
            deferred_after = True, duration_ms = 0\<rparr>)"

definition quiet_handler :: handler where
  "quiet_handler =
     (\<lambda>i. \<lparr>emitted = [Reply ''Pong!'' False], thrown = None, replied_after = True,
            deferred_after = False, duration_ms = 7\<rparr>)"

definition client_warn :: client where
  "client_warn =
     client0\<lparr>commands :=
       [(Key ''warn'', \<lparr>data_name = Some ''warn'', cmd_execute = failing_handler\<rparr>),
        (Key ''ping'', \<lparr>data_name = Some ''ping'', cmd_execute = quiet_handler\<rparr>)]\<rparr>"



section \<open>Properties of the infraction store\<close>

subsection \<open>Doubles\<close>

text \<open>
  The product of a double in \<open>[0, 1)\<close> and 36 never rounds up to 36, so the index that
  \<open>charAt\<close> gets is one of \<open>0, \<dots>, 35\<close>.
\<close>

lemma shift_0: "n < 2 ^ 53 \<Longrightarrow> shift n = 0"
  by (simp add: shift.simps)


lemma round53_small: "n < 2 ^ 53 \<Longrightarrow> round53 n = n"
  by (simp add: round53_def shift_0)



text \<open>
  Rounding matters: for the double nearest to \<open>1 / 36\<close> the exact product is below 1, the
  product of doubles is 1, and the character drawn is \<open>B\<close>, not \<open>A\<close>.
\<close>

lemma nearest_to_one_36th:
  "2001599834386887 * 36 div 2 ^ 56 = (0::nat) \<and>
   Math_floor (double_times (2001599834386887, 56) 36) = 1"
  by (simp add: Math_floor_def double_times_def round53_def shift.simps Let_def)

subsection \<open>The identifier loop\<close>

lemma set_charAt: "set (charAt s i) \<subseteq> set s"
  by (auto simp: charAt_def)

lemma length_chars: "length chars = 36"
  by (simp add: chars_def)

lemma unique_iff:
  "isInfractionIdUnique db i = Inr b \<longleftrightarrow> is_open db \<and> (b \<longleftrightarrow> i \<notin> set (map col_id (rows db)))"
  by (auto simp: isInfractionIdUnique_def filter_empty_conv)

lemma unique_closed:
  "isInfractionIdUnique db i = Inl e \<longleftrightarrow> \<not> is_open db \<and> e = ConnectionNotOpen"
  by (auto simp: isInfractionIdUnique_def)

lemma getUnique_sound:
  assumes "getUniqueInfractionId db rnd pos = Some y"
  shows "case y of
           Inl e \<Rightarrow> e = ConnectionNotOpen \<and> \<not> is_open db
         | Inr (i, p) \<Rightarrow> is_open db \<and> i \<notin> set (map col_id (rows db)) \<and>
             (\<exists>k. i = generateInfractionId rnd (pos + 8 * k) \<and> p = pos + 8 * Suc k)"
proof (rule getUniqueInfractionId.raw_induct[OF _ assms], goal_cases step)
  case (step f db rnd pos y)
  note 1 = step
  show ?case
  proof (cases "isInfractionIdUnique db (generateInfractionId rnd pos)")
    case (Inl e)
    with 1(2) show ?thesis by (auto simp: unique_closed)
  next
    case (Inr b)
    show ?thesis
    proof (cases b)
      case True
      with Inr 1(2) have y: "y = Inr (generateInfractionId rnd pos, pos + 8)" by simp
      from Inr True have "is_open db" "generateInfractionId rnd pos \<notin> set (map col_id (rows db))"
        by (simp_all add: unique_iff)
      with y show ?thesis by (auto intro: exI[of _ 0])
    next
      case False
      with Inr 1(2) have "f db rnd (pos + 8) = Some y" by simp
      note IH = 1(1)[OF this]
      show ?thesis
      proof (cases y)
        case (Inl e)
        with IH show ?thesis by simp
      next
        case (Inr ip)
        obtain i p where ip: "ip = (i, p)" by (cases ip)
        from IH Inr ip
        obtain k where k: "is_open db" "i \<notin> set (map col_id (rows db))"
            "i = generateInfractionId rnd (pos + 8 + 8 * k)" "p = pos + 8 + 8 * Suc k"
          by auto
        then have "\<exists>k'. i = generateInfractionId rnd (pos + 8 * k') \<and> p = pos + 8 * Suc k'"
          by (intro exI[of _ "Suc k"]) (simp add: add.assoc)
        with k(1,2) Inr ip show ?thesis by simp
      qed
    qed
  qed
qed


lemma getUnique_closed:
  "\<not> is_open db \<Longrightarrow> getUniqueInfractionId db rnd pos = Some (Inl ConnectionNotOpen)"
  by (subst getUniqueInfractionId.simps) (simp add: isInfractionIdUnique_def)


lemma find_append_fresh:
  "\<forall>x \<in> set xs. \<not> P x \<Longrightarrow> find P (xs @ [y]) = (if P y then Some y else None)"
  by (induction xs) auto

lemma insert_row_Inr:
  "insert_row db now i u g m t r = Inr db' \<Longrightarrow>
     is_open db \<and> i \<notin> set (map col_id (rows db)) \<and>
     db' = db\<lparr>rows := rows db @
             [\<lparr>col_id = i, user_id = u, guild_id = g, moderator_id = m, col_type = t,
               col_reason = r, created_at = now\<rparr>]\<rparr>"
  by (auto simp: insert_row_def split: if_splits)

lemma addInfraction_Inr:
  assumes "addInfraction db rnd pos now u g m t r = Some (Inr (i, db', pos'))"
  shows "getUniqueInfractionId db rnd pos = Some (Inr (i, pos'))"
    and "insert_row db now i u g m t r = Inr db'"
  using assms
  by (auto simp: addInfraction_def split: option.splits sum.splits prod.splits)

lemma gen_zero_draws: "generateInfractionId zero_draws p = ''AAAAAAAA''"
  by (simp add: generateInfractionId_def zero_draws_def charAt_def chars_def upt_conv_Cons
      Math_floor_def double_times_def round53_small)

lemma addInfraction_scenario:
  "addInfraction db0 zero_draws 0 100 ''u1'' ''g1'' ''m1'' WARN ''spam'' =
     Some (Inr (''AAAAAAAA'', db_one, 8))"
proof -
  have "getUniqueInfractionId db0 zero_draws 0 = Some (Inr (''AAAAAAAA'', 8))"
    by (subst getUniqueInfractionId.simps)
       (simp add: gen_zero_draws isInfractionIdUnique_def db0_def)
  then show ?thesis
    by (simp add: addInfraction_def insert_row_def db0_def db_one_def row_first_def)
qed

text \<open>
  C10. Whatever the draws are, an identifier built by \<open>generateInfractionId\<close> holds
  only characters of the 36-character alphabet of upper-case letters and digits, whose
  characters are pairwise different; no lower-case letter occurs in it.
\<close>

theorem generateInfractionId_alphabet:
  "set (generateInfractionId rnd pos) \<subseteq> set ''ABCDEFGHIJKLMNOPQRSTUVWXYZ0123456789'' \<and>
   length chars = 36 \<and> distinct chars \<and>
   set (generateInfractionId rnd pos) \<inter> set ''abcdefghijklmnopqrstuvwxyz'' = {}"
proof -
  have sub: "set (generateInfractionId rnd pos) \<subseteq> set chars"
    unfolding generateInfractionId_def using set_charAt by fastforce
  have d: "distinct chars" by (simp add: chars_def)
  have "set chars \<inter> set ''abcdefghijklmnopqrstuvwxyz'' = {}"
    by (simp add: chars_def)
  with sub have "set (generateInfractionId rnd pos) \<inter> set ''abcdefghijklmnopqrstuvwxyz'' = {}"
    by blast
  with sub d show ?thesis by (simp add: length_chars) (simp add: chars_def)
qed

text \<open>
  C1. When \<open>addInfraction\<close> returns an id, that id was the id of no row before the
  call, and \<open>getInfractionById\<close> on the new store returns the infraction with exactly
  the user, guild, moderator, type and reason passed (and, as creation time, the clock
  time of the insert as \<open>new Date\<close> reads it). Ids that were pairwise different before the call still are after it.
\<close>

theorem addInfraction_fresh_id_then_found:
  assumes "addInfraction db rnd pos now u g m t r = Some (Inr (i, db', pos'))"
  shows "i \<notin> set (map col_id (rows db)) \<and>
         getInfractionById date_of db' i =
           Inr (Some \<lparr>inf_id = i, userId = u, guildId = g, moderatorId = m, inf_type = t,
                      reason = r, createdAt = date_of now\<rparr>) \<and>
         (distinct (map col_id (rows db)) \<longrightarrow> distinct (map col_id (rows db')))"
proof -
  from addInfraction_Inr(2)[OF assms]
  have ins: "is_open db" "i \<notin> set (map col_id (rows db))"
    "db' = db\<lparr>rows := rows db @
             [\<lparr>col_id = i, user_id = u, guild_id = g, moderator_id = m, col_type = t,
               col_reason = r, created_at = now\<rparr>]\<rparr>"
    using insert_row_Inr by blast+
  from ins(2) have "\<forall>x \<in> set (rows db). \<not> col_id x = i" by auto
  then have "find (\<lambda>x. col_id x = i) (rows db') =
      Some \<lparr>col_id = i, user_id = u, guild_id = g, moderator_id = m, col_type = t,
               col_reason = r, created_at = now\<rparr>"
    unfolding ins(3) by (simp add: find_append_fresh)
  with ins(1) have "getInfractionById date_of db' i =
           Inr (Some \<lparr>inf_id = i, userId = u, guildId = g, moderatorId = m, inf_type = t,
                      reason = r, createdAt = date_of now\<rparr>)"
    by (simp add: getInfractionById_def ins(3) toInfraction_def)
  moreover have "distinct (map col_id (rows db)) \<longrightarrow> distinct (map col_id (rows db'))"
    using ins(2) by (simp add: ins(3))
  ultimately show ?thesis using ins(2) by blast
qed

theorem addInfraction_fresh_id_then_found_witness:
  "addInfraction db0 zero_draws 0 100 ''u1'' ''g1'' ''m1'' WARN ''spam'' =
     Some (Inr (''AAAAAAAA'', db_one, 8)) \<and>
   ''AAAAAAAA'' \<notin> set (map col_id (rows db0)) \<and>
   getInfractionById utc_zone db_one ''AAAAAAAA'' =
     Inr (Some \<lparr>inf_id = ''AAAAAAAA'', userId = ''u1'', guildId = ''g1'', moderatorId = ''m1'',
                inf_type = WARN, reason = ''spam'', createdAt = 100\<rparr>) \<and>
   distinct (map col_id (rows db_one))"
  using addInfraction_fresh_id_then_found[OF addInfraction_scenario, of utc_zone]
    addInfraction_scenario
  by (simp add: db0_def utc_zone_def)













text \<open>
  The hypothesis on the source is needed: with \<open>AAAAAAAA\<close> stored and a source that
  draws the double \<open>0\<close> at every draw, the loop draws \<open>AAAAAAAA\<close> for ever.
\<close>

lemma constant_draws_never_return:
  "is_open db_one \<and> length ''BAAAAAAA'' = 8 \<and> set ''BAAAAAAA'' \<subseteq> set chars \<and>
   ''BAAAAAAA'' \<notin> set (map col_id (rows db_one)) \<and>
   getUniqueInfractionId db_one zero_draws 0 = None \<and>
   addInfraction db_one zero_draws 0 100 ''u1'' ''g1'' ''m2'' WARN ''flood'' = None"
proof -
  have none: "getUniqueInfractionId db_one zero_draws 0 = None"
  proof (cases "getUniqueInfractionId db_one zero_draws 0")
    case None
    then show ?thesis .
  next
    case (Some y)
    from getUnique_sound[OF Some] have False
      by (cases y) (auto simp: gen_zero_draws db_one_def row_first_def)
    then show ?thesis ..
  qed
  then have "addInfraction db_one zero_draws 0 100 ''u1'' ''g1'' ''m2'' WARN ''flood'' = None"
    by (simp add: addInfraction_def)
  with none show ?thesis by (simp add: db_one_def row_first_def chars_def)
qed

subsection \<open>Queries\<close>

lemma stable_sorter_ok: "order_by_created_at_desc stable_sorter"
proof -
  have "sorted_wrt (\<lambda>a b. created_at b \<le> created_at a) (stable_sorter xs)" for xs
  proof -
    have "sorted (map (\<lambda>r. - int (created_at r)) (stable_sorter xs))"
      unfolding stable_sorter_def by (rule sorted_sort_key)
    then show ?thesis by (simp add: sorted_map)
  qed
  then show ?thesis by (simp add: order_by_created_at_desc_def stable_sorter_def)
qed

lemma add_second:
  "addInfraction db_one two_draws 8 100 ''u1'' ''g1'' ''m2'' WARN ''flood'' =
     Some (Inr (''BAAAAAAA'', db_two, 16))"
proof -
  have g: "generateInfractionId two_draws 8 = ''BAAAAAAA''"
    by (simp add: generateInfractionId_def two_draws_def charAt_def chars_def upt_conv_Cons
        Math_floor_def double_times_def round53_small)
  have "getUniqueInfractionId db_one two_draws 8 = Some (Inr (''BAAAAAAA'', 16))"
    by (subst getUniqueInfractionId.simps)
       (simp add: g isInfractionIdUnique_def db_one_def row_first_def)
  then show ?thesis
    by (simp add: addInfraction_def insert_row_def db_one_def db_two_def row_first_def
        row_second_def)
qed

lemma query_db_two:
  "getUserInfractions stable_sorter utc_zone db_two ''u1'' ''g1'' None =
     Inr [toInfraction utc_zone row_first, toInfraction utc_zone row_second]"
  by (simp add: getUserInfractions_def db_two_def matches_def row_first_def row_second_def
      stable_sorter_def)

lemma query_db_gap:
  "getUserInfractions stable_sorter date_of db_gap ''u1'' ''g1'' None =
     Inr [toInfraction date_of row_0310, toInfraction date_of row_0230]"
  by (simp add: getUserInfractions_def db_gap_def matches_def row_0230_def row_0310_def
      stable_sorter_def)

text \<open>
  C3 (as the code has it). For every engine that keeps the promise of
  \<open>ORDER BY created_at DESC\<close> and every reading \<open>date_of\<close> of the stored text: on an open
  store \<open>getUserInfractions\<close> returns a list. The list is the infractions of a list of
  rows that holds exactly the rows matching user, guild and (when given) type, each as
  often as it is stored, sorted by the stored \<open>created_at\<close>, newest first. Where the
  reading is monotone, the list is sorted by \<open>createdAt\<close> as well, newest first. Nothing
  is said about rows with equal \<open>created_at\<close>, nor about \<open>createdAt\<close> under a reading
  that is not monotone.
\<close>

theorem getUserInfractions_matching_sorted:
  assumes "order_by_created_at_desc ob"
  shows "(is_open db \<longrightarrow> (\<exists>xs. getUserInfractions ob date_of db u g t = Inr xs)) \<and>
         (\<forall>xs. getUserInfractions ob date_of db u g t = Inr xs \<longrightarrow>
            (\<exists>ys. xs = map (toInfraction date_of) ys \<and>
                  mset ys = filter_mset (matches u g t) (mset (rows db)) \<and>
                  sorted_wrt (\<lambda>a b. created_at b \<le> created_at a) ys) \<and>
            mset xs =
              image_mset (toInfraction date_of) (filter_mset (matches u g t) (mset (rows db))) \<and>
            ((\<forall>v w. v \<le> w \<longrightarrow> date_of v \<le> date_of w) \<longrightarrow>
               sorted_wrt (\<lambda>a b. createdAt b \<le> createdAt a) xs))"
proof -
  let ?sel = "filter (matches u g t) (rows db)"
  from assms have m: "mset (ob ?sel) = mset ?sel"
    and s: "sorted_wrt (\<lambda>a b. created_at b \<le> created_at a) (ob ?sel)"
    by (simp_all add: order_by_created_at_desc_def)
  from m have m': "mset (ob ?sel) = filter_mset (matches u g t) (mset (rows db))" by simp
  have bag: "mset (map (toInfraction date_of) (ob ?sel)) =
        image_mset (toInfraction date_of) (filter_mset (matches u g t) (mset (rows db)))"
  proof -
    have "mset (map (toInfraction date_of) (ob ?sel)) =
          image_mset (toInfraction date_of) (mset (ob ?sel))"
      by (rule mset_map)
    also have "\<dots> = image_mset (toInfraction date_of) (mset ?sel)" by (simp only: m)
    finally show ?thesis by simp
  qed
  have srt: "sorted_wrt (\<lambda>a b. createdAt b \<le> createdAt a) (map (toInfraction date_of) (ob ?sel))"
    if mono: "\<forall>v w. v \<le> w \<longrightarrow> date_of v \<le> date_of w"
  proof -
    have "sorted_wrt (\<lambda>a b. date_of (created_at b) \<le> date_of (created_at a)) (ob ?sel)"
      by (rule sorted_wrt_mono_rel[OF _ s]) (use mono in blast)
    then show ?thesis by (simp add: sorted_wrt_map toInfraction_def)
  qed
  show ?thesis
  proof (intro conjI impI allI)
    show "\<exists>xs. getUserInfractions ob date_of db u g t = Inr xs" if "is_open db"
      using that by (simp add: getUserInfractions_def)
  next
    fix xs assume r: "getUserInfractions ob date_of db u g t = Inr xs"
    then have xs: "xs = map (toInfraction date_of) (ob ?sel)"
      by (simp add: getUserInfractions_def split: if_splits)
    from xs m' s
    show "\<exists>ys. xs = map (toInfraction date_of) ys \<and>
                mset ys = filter_mset (matches u g t) (mset (rows db)) \<and>
                sorted_wrt (\<lambda>a b. created_at b \<le> created_at a) ys"
      by (intro exI[of _ "ob ?sel"] conjI)
    from xs bag
    show "mset xs =
            image_mset (toInfraction date_of) (filter_mset (matches u g t) (mset (rows db)))"
      by simp
    show "sorted_wrt (\<lambda>a b. createdAt b \<le> createdAt a) xs"
      if "\<forall>v w. v \<le> w \<longrightarrow> date_of v \<le> date_of w"
      using srt[OF that] xs by simp
  qed
qed

theorem getUserInfractions_matching_sorted_witness:
  "order_by_created_at_desc stable_sorter \<and> is_open db_gap \<and> mono utc_zone \<and>
   getUserInfractions stable_sorter utc_zone db_gap ''u1'' ''g1'' None =
     Inr [toInfraction utc_zone row_0310, toInfraction utc_zone row_0230] \<and>
   mset [toInfraction utc_zone row_0310, toInfraction utc_zone row_0230] =
     image_mset (toInfraction utc_zone)
       (filter_mset (matches ''u1'' ''g1'' None) (mset (rows db_gap))) \<and>
   sorted_wrt (\<lambda>a b. createdAt b \<le> createdAt a)
     [toInfraction utc_zone row_0310, toInfraction utc_zone row_0230] \<and>
   map createdAt [toInfraction utc_zone row_0310, toInfraction utc_zone row_0230] =
     [1772939400, 1772937000]"
proof -
  have mono: "\<forall>v w. v \<le> w \<longrightarrow> utc_zone v \<le> utc_zone w" by (simp add: utc_zone_def)
  have o: "is_open db_gap" by (simp add: db_gap_def)
  note q = query_db_gap[of utc_zone]
  note t = getUserInfractions_matching_sorted[OF stable_sorter_ok,
      where db = db_gap and date_of = utc_zone and u = "''u1''" and g = "''g1''" and t = None]
  note tq = t[THEN conjunct2, THEN spec, THEN mp, OF q]
  note bag = tq[THEN conjunct2, THEN conjunct1]
  note srt = tq[THEN conjunct2, THEN conjunct2, THEN mp, OF mono]
  have c: "map createdAt [toInfraction utc_zone row_0310, toInfraction utc_zone row_0230] =
     [1772939400, 1772937000]"
    by (simp add: toInfraction_def utc_zone_def row_0230_def row_0310_def)
  have m: "mono utc_zone" by (simp add: mono_def utc_zone_def)
  show ?thesis
    by (intro conjI) (rule stable_sorter_ok o m q bag srt c)+
qed

text \<open>
  Two ways in which the list is not as the claim has it. Two infractions of one user and
  guild added within the same second: with the stable sorter, which keeps the promise of
  \<open>ORDER BY\<close>, the row inserted first comes first in the result, not the row inserted
  last. And the two infractions of \<open>db_gap\<close> read in the zone \<open>America/New_York\<close>: the row
  stored with 03:10:00 comes first, as \<open>ORDER BY\<close> has it, but its \<open>createdAt\<close> is 07:10:00
  UTC and that of the row after it is 07:30:00 UTC, so \<open>createdAt\<close> ascends.
\<close>

theorem getUserInfractions_order_counterexample:
  "order_by_created_at_desc stable_sorter \<and>
   addInfraction db_one two_draws 8 100 ''u1'' ''g1'' ''m2'' WARN ''flood'' =
     Some (Inr (''BAAAAAAA'', db_two, 16)) \<and>
   rows db_two = rows db_one @ [row_second] \<and>
   created_at row_first = created_at row_second \<and>
   getUserInfractions stable_sorter utc_zone db_two ''u1'' ''g1'' None =
     Inr [toInfraction utc_zone row_first, toInfraction utc_zone row_second] \<and>
   toInfraction utc_zone row_first \<noteq> toInfraction utc_zone row_second \<and>
   getUserInfractions stable_sorter new_york_zone db_gap ''u1'' ''g1'' None =
     Inr [toInfraction new_york_zone row_0310, toInfraction new_york_zone row_0230] \<and>
   map createdAt [toInfraction new_york_zone row_0310, toInfraction new_york_zone row_0230] =
     [1772953800, 1772955000] \<and>
   \<not> sorted_wrt (\<lambda>a b. createdAt b \<le> createdAt a)
       [toInfraction new_york_zone row_0310, toInfraction new_york_zone row_0230]"
proof -
  have ties: "rows db_two = rows db_one @ [row_second] \<and>
     created_at row_first = created_at row_second \<and>
     toInfraction utc_zone row_first \<noteq> toInfraction utc_zone row_second"
    by (simp add: db_two_def db_one_def row_first_def row_second_def toInfraction_def)
  have gap: "map createdAt [toInfraction new_york_zone row_0310, toInfraction new_york_zone row_0230] =
     [1772953800, 1772955000]"
    by (simp add: toInfraction_def new_york_zone_def row_0230_def row_0310_def)
  then have unsorted: "\<not> sorted_wrt (\<lambda>a b. createdAt b \<le> createdAt a)
       [toInfraction new_york_zone row_0310, toInfraction new_york_zone row_0230]"
    by simp
  from stable_sorter_ok add_second query_db_two query_db_gap[of new_york_zone] ties gap unsorted
  show ?thesis by simp
qed

text \<open>
  C4. For every engine that keeps the promise of \<open>ORDER BY\<close>, every reading of the
  stored time, every store, user, guild and optional type: on an open store \<open>getInfractionCount\<close> is the length of the list
  that \<open>getUserInfractions\<close> returns; on a closed one both throw.
\<close>

theorem getInfractionCount_eq_length:
  assumes "order_by_created_at_desc ob"
  shows "(is_open db \<longrightarrow>
            (\<exists>xs. getUserInfractions ob date_of db u g t = Inr xs \<and>
                  getInfractionCount db u g t = Inr (length xs))) \<and>
         (\<not> is_open db \<longrightarrow>
            getUserInfractions ob date_of db u g t = Inl ConnectionNotOpen \<and>
            getInfractionCount db u g t = Inl ConnectionNotOpen)"
proof -
  let ?sel = "filter (matches u g t) (rows db)"
  from assms have "mset (ob ?sel) = mset ?sel"
    by (simp add: order_by_created_at_desc_def)
  then have "length (ob ?sel) = length ?sel"
    by (rule mset_eq_length)
  then show ?thesis
    by (simp add: getUserInfractions_def getInfractionCount_def)
qed

theorem getInfractionCount_eq_length_witness:
  "order_by_created_at_desc stable_sorter \<and> is_open db_two \<and>
   getUserInfractions stable_sorter utc_zone db_two ''u1'' ''g1'' (Some WARN) =
     Inr [toInfraction utc_zone row_first, toInfraction utc_zone row_second] \<and>
   getInfractionCount db_two ''u1'' ''g1'' (Some WARN) = Inr 2"
proof -
  have q: "getUserInfractions stable_sorter utc_zone db_two ''u1'' ''g1'' (Some WARN) =
     Inr [toInfraction utc_zone row_first, toInfraction utc_zone row_second]"
    by (simp add: getUserInfractions_def db_two_def matches_def row_first_def row_second_def
      stable_sorter_def)
  have o: "is_open db_two" by (simp add: db_two_def)
  from getInfractionCount_eq_length[OF stable_sorter_ok, where db = db_two and date_of = utc_zone
      and u = "''u1''" and g = "''g1''" and t = "Some WARN"] q o
    stable_sorter_ok
  show ?thesis by simp
qed

subsection \<open>Sequences of calls\<close>

lemma addInfraction_rows:
  assumes "addInfraction db rnd pos now u g m t r = Some (Inr (i, db', pos'))"
  shows "\<exists>new. rows db' = rows db @ new"
    and "distinct (map col_id (rows db)) \<Longrightarrow> distinct (map col_id (rows db'))"
  using insert_row_Inr[OF addInfraction_Inr(2)[OF assms]] by auto

lemma run_op_rows:
  assumes "run_op rnd x (db, pos) = Some (db', pos')"
  shows "(\<exists>new. rows db' = rows db @ new) \<and>
         (distinct (map col_id (rows db)) \<longrightarrow> distinct (map col_id (rows db')))"
proof -
  obtain now op where x: "x = (now, op)" by (cases x)
  show ?thesis
  proof (cases op)
    case (AddInfraction u g m t r)
    with x assms addInfraction_rows[of db rnd pos now u g m t r] show ?thesis
      by (auto split: option.splits sum.splits)
  next
    case (AddWarning u g m r)
    with x assms addInfraction_rows[of db rnd pos now u g m WARN r] show ?thesis
      by (auto simp: addWarning_def split: option.splits sum.splits)
  next
    case Close
    with x assms show ?thesis by (auto simp: close_def)
  qed (use x assms in auto)
qed

lemma run_ops_rows:
  assumes "run_ops rnd ops (db, pos) = Some (db', pos')"
  shows "(\<exists>new. rows db' = rows db @ new) \<and>
         (distinct (map col_id (rows db)) \<longrightarrow> distinct (map col_id (rows db')))"
  using assms
proof (induction ops arbitrary: db pos)
  case Nil
  then show ?case by simp
next
  case (Cons x xs)
  from Cons.prems obtain db1 pos1 where
    step: "run_op rnd x (db, pos) = Some (db1, pos1)" and
    rest: "run_ops rnd xs (db1, pos1) = Some (db', pos')"
    by (auto split: option.splits)
  from run_op_rows[OF step] Cons.IH[OF rest] show ?case by auto
qed

lemma find_distinct_key:
  "distinct (map f xs) \<Longrightarrow> r \<in> set xs \<Longrightarrow> find (\<lambda>x. f x = f r) xs = Some r"
  by (induction xs) (auto simp: image_iff)

lemma getUserInfractions_member:
  assumes "order_by_created_at_desc ob" "is_open db" "r \<in> set (rows db)" "matches u g t r"
  shows "\<exists>xs. getUserInfractions ob date_of db u g t = Inr xs \<and> toInfraction date_of r \<in> set xs"
proof -
  let ?sel = "filter (matches u g t) (rows db)"
  from assms(1) have "mset (ob ?sel) = mset ?sel"
    by (simp add: order_by_created_at_desc_def)
  then have "set (ob ?sel) = set ?sel" by (rule mset_eq_setD)
  with assms(3,4) have "r \<in> set (ob ?sel)" by simp
  with assms(2) show ?thesis by (simp add: getUserInfractions_def)
qed

lemma run_two_ops:
  "run_ops two_draws
     [(100, AddWarning ''u1'' ''g1'' ''m2'' ''flood''), (101, GetStats)] (db_one, 8) =
   Some (db_two, 16)"
  using add_second by (simp add: addWarning_def)

text \<open>
  C8 (as the code has it). After any sequence of calls of the public methods that all
  return or throw, the table is the old table followed by the rows added: no row is
  changed or removed. If the ids of the old table are pairwise different and the
  connection is still open afterwards, every row \<open>r\<close> of the old table is returned
  unchanged by \<open>getInfractionById\<close> and occurs in the result of \<open>getUserInfractions\<close>
  for its user and guild, both without a type and with its own type.
\<close>

theorem stored_rows_kept_and_returned_while_open:
  assumes "run_ops rnd ops (db, pos) = Some (db', pos')"
    and "distinct (map col_id (rows db))"
    and "r \<in> set (rows db)"
    and "order_by_created_at_desc ob"
  shows "(\<exists>new. rows db' = rows db @ new) \<and>
         (is_open db' \<longrightarrow>
            getInfractionById date_of db' (col_id r) = Inr (Some (toInfraction date_of r)) \<and>
            (\<exists>xs. getUserInfractions ob date_of db' (user_id r) (guild_id r) None = Inr xs \<and>
                  toInfraction date_of r \<in> set xs) \<and>
            (\<exists>xs. getUserInfractions ob date_of db' (user_id r) (guild_id r) (Some (col_type r)) = Inr xs \<and>
                  toInfraction date_of r \<in> set xs))"
proof -
  from run_ops_rows[OF assms(1)] assms(2)
  obtain new where new: "rows db' = rows db @ new" and d: "distinct (map col_id (rows db'))"
    by blast
  from new assms(3) have mem: "r \<in> set (rows db')" by simp
  have byid: "getInfractionById date_of db' (col_id r) = Inr (Some (toInfraction date_of r))" if "is_open db'"
    using that find_distinct_key[OF d mem] by (simp add: getInfractionById_def)
  have m1: "matches (user_id r) (guild_id r) None r"
    and m2: "matches (user_id r) (guild_id r) (Some (col_type r)) r"
    by (simp_all add: matches_def)
  from new byid getUserInfractions_member[OF assms(4) _ mem m1]
    getUserInfractions_member[OF assms(4) _ mem m2]
  show ?thesis by blast
qed

theorem stored_rows_kept_and_returned_while_open_witness:
  "run_ops two_draws
     [(100, AddWarning ''u1'' ''g1'' ''m2'' ''flood''), (101, GetStats)] (db_one, 8) =
   Some (db_two, 16) \<and>
   distinct (map col_id (rows db_one)) \<and> row_first \<in> set (rows db_one) \<and>
   order_by_created_at_desc stable_sorter \<and> is_open db_two \<and>
   (\<exists>new. rows db_two = rows db_one @ new) \<and>
   getInfractionById utc_zone db_two (col_id row_first) = Inr (Some (toInfraction utc_zone row_first)) \<and>
   (\<exists>xs. getUserInfractions stable_sorter utc_zone db_two (user_id row_first) (guild_id row_first) None =
           Inr xs \<and> toInfraction utc_zone row_first \<in> set xs) \<and>
   (\<exists>xs. getUserInfractions stable_sorter utc_zone db_two (user_id row_first) (guild_id row_first)
            (Some (col_type row_first)) = Inr xs \<and> toInfraction utc_zone row_first \<in> set xs)"
proof -
  have d: "distinct (map col_id (rows db_one))" and m: "row_first \<in> set (rows db_one)"
    and o: "is_open db_two"
    by (simp_all add: db_one_def db_two_def)
  note t = stored_rows_kept_and_returned_while_open[OF run_two_ops d m stable_sorter_ok,
      where date_of = utc_zone]
  have ex: "\<exists>new. rows db_two = rows db_one @ new" by (rule conjunct1[OF t])
  note rest = mp[OF conjunct2[OF t] o]
  from run_two_ops d m stable_sorter_ok o ex rest show ?thesis by simp
qed

text \<open>
  After \<open>close()\<close> the row of \<open>db_one\<close> is still in the table, but
  \<open>getInfractionById\<close> and \<open>getUserInfractions\<close> throw instead of returning it.
\<close>

theorem closed_store_returns_nothing:
  "run_ops zero_draws [(101, Close)] (db_one, 8) = Some (close db_one, 8) \<and>
   row_first \<in> set (rows db_one) \<and>
   rows (close db_one) = rows db_one \<and>
   getInfractionById utc_zone db_one (col_id row_first) = Inr (Some (toInfraction utc_zone row_first)) \<and>
   getInfractionById utc_zone (close db_one) (col_id row_first) = Inl ConnectionNotOpen \<and>
   getUserInfractions stable_sorter utc_zone (close db_one) (user_id row_first) (guild_id row_first) None =
     Inl ConnectionNotOpen"
  by (simp add: close_def db_one_def getInfractionById_def getUserInfractions_def)

section \<open>Properties of the dispatcher\<close>

lemma collection_has_get: "collection_has c k \<longleftrightarrow> collection_get c k \<noteq> None"
  by (simp add: collection_has_def collection_get_def map_of_eq_None_iff)

lemma sendErrorResponse_eq:
  "sendErrorResponse i m =
     ([if replied i \<or> deferred i then FollowUp m True else Reply m True] @
      (case send_fails i of
         None \<Rightarrow> []
       | Some e \<Rightarrow> [Console Console_error ''Failed to reply with error:'' (Some e)]),
      None)"
  by (cases "send_fails i") (simp_all add: sendErrorResponse_def send_def try_catch_def console_def)

lemma handleChatInputCommand_unknown:
  assumes "collection_get (commands cl) (Key n) = None"
  shows "handleChatInputCommand cl i n =
     ([Console Console_warn (''Unknown command: '' @ n) None,
       if replied i \<or> deferred i then FollowUp (''Command `'' @ n @ ''` not found.'') True
       else Reply (''Command `'' @ n @ ''` not found.'') True] @
      (case send_fails i of
         None \<Rightarrow> []
       | Some e \<Rightarrow> [Console Console_error ''Failed to reply with error:'' (Some e)]),
      None)"
  using assms
  by (simp add: handleChatInputCommand_def sendErrorResponse_eq then_do_def console_def)

lemma handleChatInputCommand_throws:
  assumes "collection_get (commands cl) (Key n) = Some c" "thrown (cmd_execute c i) = Some err"
  shows "handleChatInputCommand cl i n =
     ([Console Console_log (''Running /'' @ n @ '' by '' @ user_tag i) None] @
      emitted (cmd_execute c i) @
      [Console Console_error (''Error in command '' @ n @ '':'') (Some err),
       if replied_after (cmd_execute c i) \<or> deferred_after (cmd_execute c i)
       then FollowUp ''Something went wrong while executing the command.'' True
       else Reply ''Something went wrong while executing the command.'' True] @
      (case send_fails i of
         None \<Rightarrow> []
       | Some e \<Rightarrow> [Console Console_error ''Failed to reply with error:'' (Some e)]),
      None)"
  using assms
  by (simp add: handleChatInputCommand_def sendErrorResponse_eq then_do_def try_catch_def
      console_def run_handler_def)

lemma handleChatInputCommand_completes:
  assumes "collection_get (commands cl) (Key n) = Some c" "thrown (cmd_execute c i) = None"
  shows "handleChatInputCommand cl i n =
     ([Console Console_log (''Running /'' @ n @ '' by '' @ user_tag i) None] @
      emitted (cmd_execute c i) @
      [Console Console_log
         (n @ '' executed in '' @ string_of_nat (duration_ms (cmd_execute c i)) @ ''ms'') None],
      None)"
  using assms
  by (simp add: handleChatInputCommand_def then_do_def try_catch_def console_def run_handler_def)

lemma handleChatInputCommand_no_throw: "snd (handleChatInputCommand cl i n) = None"
proof (cases "collection_get (commands cl) (Key n)")
  case None
  then show ?thesis by (simp add: handleChatInputCommand_unknown)
next
  case (Some c)
  then show ?thesis
    by (cases "thrown (cmd_execute c i)")
       (simp_all add: handleChatInputCommand_throws handleChatInputCommand_completes)
qed

lemma handleButtonInteraction_eq:
  "handleButtonInteraction i cid =
     (Console Console_log (''Button: '' @ cid @ '' by '' @ user_tag i) None #
      (if cid = ''ping_refresh'' then []
       else [Console Console_info (''Unhandled button: '' @ cid) None]),
      None)"
  by (simp add: handleButtonInteraction_def then_do_def try_catch_def console_def)

lemma handleSelectMenuInteraction_eq:
  "handleSelectMenuInteraction i cid =
     ([Console Console_log (''Select Menu: '' @ cid @ '' by '' @ user_tag i) None,
       Console Console_info (''Unhandled select menu: '' @ cid) None],
      None)"
  by (simp add: handleSelectMenuInteraction_def then_do_def try_catch_def console_def)

lemma handleModalInteraction_eq:
  "handleModalInteraction i cid =
     ([Console Console_log (''Modal: '' @ cid @ '' by '' @ user_tag i) None,
       Console Console_info (''Unhandled modal: '' @ cid) None],
      None)"
  by (simp add: handleModalInteraction_def then_do_def try_catch_def console_def)

lemma try_catch_no_throw: "snd a = None \<Longrightarrow> try_catch a h = a"
  by (simp add: try_catch_def)

lemma execute_eq:
  "execute cl i =
     (case kind i of
        ChatInputCommand n \<Rightarrow> handleChatInputCommand cl i n
      | Button cid \<Rightarrow> handleButtonInteraction i cid
      | StringSelectMenu cid \<Rightarrow> handleSelectMenuInteraction i cid
      | ModalSubmit cid \<Rightarrow> handleModalInteraction i cid
      | OtherInteraction \<Rightarrow> ([], None))"
  unfolding execute_def
  by (rule try_catch_no_throw)
     (simp add: handleChatInputCommand_no_throw handleButtonInteraction_eq
        handleSelectMenuInteraction_eq handleModalInteraction_eq split: interaction_kind.split)

lemma execute_no_throw: "snd (execute cl i) = None"
  by (simp add: execute_eq handleChatInputCommand_no_throw handleButtonInteraction_eq
        handleSelectMenuInteraction_eq handleModalInteraction_eq split: interaction_kind.split)



text \<open>
  C5 (as the code has it). \<open>execute\<close> never throws. A command invocation whose name
  the collection of commands does not hold logs the warning \<open>Unknown command\<close> and
  sends the user the ephemeral message that the command was not found, by \<open>followUp\<close> if
  the interaction was already replied to or deferred and by \<open>reply\<close> otherwise; when that
  send fails, the failure is logged and nothing else happens. A button, string select
  menu or modal interaction produces console lines only (the line \<open>Unhandled\<close> for
  every id but the button \<open>ping_refresh\<close>). An interaction of any other kind produces
  nothing at all, not even a console line.
\<close>

theorem unrouted_event_outcome:
  "snd (execute cl i) = None \<and>
   (\<forall>n. kind i = ChatInputCommand n \<and> \<not> collection_has (commands cl) (Key n) \<longrightarrow>
      fst (execute cl i) =
        [Console Console_warn (''Unknown command: '' @ n) None,
         if replied i \<or> deferred i then FollowUp (''Command `'' @ n @ ''` not found.'') True
         else Reply (''Command `'' @ n @ ''` not found.'') True] @
        (case send_fails i of
           None \<Rightarrow> []
         | Some e \<Rightarrow> [Console Console_error ''Failed to reply with error:'' (Some e)])) \<and>
   (\<forall>cid. kind i = Button cid \<longrightarrow>
      fst (execute cl i) =
        Console Console_log (''Button: '' @ cid @ '' by '' @ user_tag i) None #
        (if cid = ''ping_refresh'' then []
         else [Console Console_info (''Unhandled button: '' @ cid) None])) \<and>
   (\<forall>cid. kind i = StringSelectMenu cid \<longrightarrow>
      fst (execute cl i) =
        [Console Console_log (''Select Menu: '' @ cid @ '' by '' @ user_tag i) None,
         Console Console_info (''Unhandled select menu: '' @ cid) None]) \<and>
   (\<forall>cid. kind i = ModalSubmit cid \<longrightarrow>
      fst (execute cl i) =
        [Console Console_log (''Modal: '' @ cid @ '' by '' @ user_tag i) None,
         Console Console_info (''Unhandled modal: '' @ cid) None]) \<and>
   (kind i = OtherInteraction \<longrightarrow> fst (execute cl i) = [])"
proof (intro conjI allI impI)
  show "snd (execute cl i) = None" by (rule execute_no_throw)
next
  fix n
  assume "kind i = ChatInputCommand n \<and> \<not> collection_has (commands cl) (Key n)"
  then show "fst (execute cl i) =
        [Console Console_warn (''Unknown command: '' @ n) None,
         if replied i \<or> deferred i then FollowUp (''Command `'' @ n @ ''` not found.'') True
         else Reply (''Command `'' @ n @ ''` not found.'') True] @
        (case send_fails i of
           None \<Rightarrow> []
         | Some e \<Rightarrow> [Console Console_error ''Failed to reply with error:'' (Some e)])"
    by (simp add: execute_eq collection_has_get handleChatInputCommand_unknown)
qed (simp_all add: execute_eq handleButtonInteraction_eq handleSelectMenuInteraction_eq
       handleModalInteraction_eq)

theorem unrouted_event_outcome_witness:
  "kind unknown_command = ChatInputCommand ''unknown'' \<and>
   \<not> collection_has (commands client0) (Key ''unknown'') \<and>
   execute client0 unknown_command =
     ([Console Console_warn ''Unknown command: unknown'' None,
       Reply ''Command `unknown` not found.'' True], None)"
proof -
  have k: "kind unknown_command = ChatInputCommand ''unknown'' \<and>
           \<not> collection_has (commands client0) (Key ''unknown'')"
    by (simp add: unknown_command_def client0_def collection_has_def)
  note t = unrouted_event_outcome[of client0 unknown_command]
  from t have s: "snd (execute client0 unknown_command) = None" by (rule conjunct1)
  from t have "\<forall>n. kind unknown_command = ChatInputCommand n \<and>
                  \<not> collection_has (commands client0) (Key n) \<longrightarrow>
      fst (execute client0 unknown_command) =
        [Console Console_warn (''Unknown command: '' @ n) None,
         if replied unknown_command \<or> deferred unknown_command
         then FollowUp (''Command `'' @ n @ ''` not found.'') True
         else Reply (''Command `'' @ n @ ''` not found.'') True] @
        (case send_fails unknown_command of
           None \<Rightarrow> []
         | Some e \<Rightarrow> [Console Console_error ''Failed to reply with error:'' (Some e)])"
    by (elim conjE)
  from this[rule_format, OF k]
  have f: "fst (execute client0 unknown_command) =
     [Console Console_warn ''Unknown command: unknown'' None,
       Reply ''Command `unknown` not found.'' True]"
    by (simp add: unknown_command_def)
  from s f have "execute client0 unknown_command =
     ([Console Console_warn ''Unknown command: unknown'' None,
       Reply ''Command `unknown` not found.'' True], None)"
    by (simp add: prod_eq_iff)
  with k show ?thesis by simp
qed

text \<open>
  An interaction that none of the four type guards accepts (an autocomplete request, say):
  \<open>execute\<close> returns without a single effect, so no miss is logged.
\<close>

theorem other_interaction_leaves_no_trace:
  "kind autocomplete = OtherInteraction \<and> execute client0 autocomplete = ([], None)"
  by (simp add: execute_eq autocomplete_def)



section \<open>Properties of the registry and of discovery\<close>

lemma collection_get_set_same: "collection_get (collection_set k v c) k = Some v"
  by (induction c) (auto simp: collection_get_def)

lemma collection_get_set_other:
  "k' \<noteq> k \<Longrightarrow> collection_get (collection_set k v c) k' = collection_get c k'"
  by (induction c) (auto simp: collection_get_def)

lemma collection_set_keys:
  "map fst (collection_set k v c) = (if k \<in> set (map fst c) then map fst c else map fst c @ [k])"
  by (induction c) (auto simp: rev_image_eqI)

lemma collection_set_twice_keys:
  "map fst (collection_set k v2 (collection_set k v1 c)) = map fst (collection_set k v1 c)"
  by (simp add: collection_set_keys)

lemma count_key_distinct:
  "distinct (map fst c) \<Longrightarrow> k \<in> set (map fst c) \<Longrightarrow> length (filter (\<lambda>kv. fst kv = k) c) = 1"
proof (induction c)
  case Nil
  then show ?case by simp
next
  case (Cons a c)
  show ?case
  proof (cases "fst a = k")
    case True
    with Cons.prems(1) have "filter (\<lambda>kv. fst kv = k) c = []"
      by (auto simp: filter_empty_conv image_iff)
    with True show ?thesis by simp
  next
    case False
    with Cons show ?thesis by auto
  qed
qed

lemma collection_set_distinct:
  "distinct (map fst c) \<Longrightarrow> distinct (map fst (collection_set k v c))"
  by (simp add: collection_set_keys)

lemma loadCommands_same_name_twice:
  "collection_get
     (commands (fst (loadCommands cl
        (Inr [(folder, [(p1, Default (Some (Data (Some n))) (Some h1)),
                        (p2, Default (Some (Data (Some n))) (Some h2))])]))))
     (Key n) = Some \<lparr>data_name = Some n, cmd_execute = h2\<rparr>"
  by (simp add: loadCommands_def collection_get_set_same key_of_def)

text \<open>
  C7. For every collection and key: after two \<open>set\<close> calls with the same key, \<open>get\<close>
  returns the entry set last; the second call adds no key (and with pairwise different
  keys before, the key stands exactly once afterwards); other keys keep what they had. In
  \<open>loadCommands\<close>, two well-formed files of one folder with the same command name leave
  the second file's command under that name.
\<close>

theorem re_registration_replaces:
  "collection_get (collection_set k e2 (collection_set k e1 reg)) k = Some e2 \<and>
   map fst (collection_set k e2 (collection_set k e1 reg)) = map fst (collection_set k e1 reg) \<and>
   (distinct (map fst reg) \<longrightarrow>
      length (filter (\<lambda>kv. fst kv = k) (collection_set k e2 (collection_set k e1 reg))) = 1) \<and>
   (\<forall>k'. k' \<noteq> k \<longrightarrow>
      collection_get (collection_set k e2 (collection_set k e1 reg)) k' = collection_get reg k') \<and>
   collection_get
     (commands (fst (loadCommands cl
        (Inr [(folder, [(p1, Default (Some (Data (Some n))) (Some h1)),
                        (p2, Default (Some (Data (Some n))) (Some h2))])]))))
     (Key n) = Some \<lparr>data_name = Some n, cmd_execute = h2\<rparr>"
proof (intro conjI allI impI)
  show "collection_get (collection_set k e2 (collection_set k e1 reg)) k = Some e2"
    by (rule collection_get_set_same)
  show "map fst (collection_set k e2 (collection_set k e1 reg)) = map fst (collection_set k e1 reg)"
    by (rule collection_set_twice_keys)
  show "length (filter (\<lambda>kv. fst kv = k) (collection_set k e2 (collection_set k e1 reg))) = 1"
    if "distinct (map fst reg)"
  proof (rule count_key_distinct)
    from that show "distinct (map fst (collection_set k e2 (collection_set k e1 reg)))"
      by (intro collection_set_distinct)
    show "k \<in> set (map fst (collection_set k e2 (collection_set k e1 reg)))"
      by (simp add: collection_set_keys)
  qed
  show "collection_get (collection_set k e2 (collection_set k e1 reg)) k' = collection_get reg k'"
    if "k' \<noteq> k" for k'
    using that by (simp add: collection_get_set_other)
  show "collection_get
     (commands (fst (loadCommands cl
        (Inr [(folder, [(p1, Default (Some (Data (Some n))) (Some h1)),
                        (p2, Default (Some (Data (Some n))) (Some h2))])]))))
     (Key n) = Some \<lparr>data_name = Some n, cmd_execute = h2\<rparr>"
    by (rule loadCommands_same_name_twice)
qed

theorem re_registration_replaces_witness:
  "collection_set (Key ''warn'') \<lparr>data_name = Some ''warn'', cmd_execute = quiet_handler\<rparr> (commands client_warn) =
     [(Key ''warn'', \<lparr>data_name = Some ''warn'', cmd_execute = quiet_handler\<rparr>),
      (Key ''ping'', \<lparr>data_name = Some ''ping'', cmd_execute = quiet_handler\<rparr>)] \<and>
   collection_get
     (collection_set (Key ''warn'') \<lparr>data_name = Some ''warn'', cmd_execute = quiet_handler\<rparr>
        (collection_set (Key ''warn'') \<lparr>data_name = Some ''warn'', cmd_execute = failing_handler\<rparr>
           [(Key ''ping'', \<lparr>data_name = Some ''ping'', cmd_execute = quiet_handler\<rparr>)])) (Key ''warn'') =
     Some \<lparr>data_name = Some ''warn'', cmd_execute = quiet_handler\<rparr> \<and>
   length (filter (\<lambda>kv. fst kv = Key ''warn'')
     (collection_set (Key ''warn'') \<lparr>data_name = Some ''warn'', cmd_execute = quiet_handler\<rparr>
        (collection_set (Key ''warn'') \<lparr>data_name = Some ''warn'', cmd_execute = failing_handler\<rparr>
           [(Key ''ping'', \<lparr>data_name = Some ''ping'', cmd_execute = quiet_handler\<rparr>)]))) = 1 \<and>
   collection_get
     (collection_set (Key ''warn'') \<lparr>data_name = Some ''warn'', cmd_execute = quiet_handler\<rparr>
        (collection_set (Key ''warn'') \<lparr>data_name = Some ''warn'', cmd_execute = failing_handler\<rparr>
           [(Key ''ping'', \<lparr>data_name = Some ''ping'', cmd_execute = quiet_handler\<rparr>)])) (Key ''ping'') =
     Some \<lparr>data_name = Some ''ping'', cmd_execute = quiet_handler\<rparr>"
proof -
  note t = re_registration_replaces[of "Key ''warn''"
      "\<lparr>data_name = Some ''warn'', cmd_execute = quiet_handler\<rparr>"
      "\<lparr>data_name = Some ''warn'', cmd_execute = failing_handler\<rparr>"
      "[(Key ''ping'', \<lparr>data_name = Some ''ping'', cmd_execute = quiet_handler\<rparr>)]"]
  have d: "distinct (map fst [(Key ''ping'', \<lparr>data_name = Some ''ping'', cmd_execute = quiet_handler\<rparr>)])"
    by simp
  have ne: "Key ''ping'' \<noteq> Key ''warn''" by simp
  note g = t[THEN conjunct1]
  note c = t[THEN conjunct2, THEN conjunct2, THEN conjunct1, THEN mp, OF d]
  note o' = t[THEN conjunct2, THEN conjunct2, THEN conjunct2, THEN conjunct1, THEN spec,
      THEN mp, OF ne]
  have o: "collection_get
     (collection_set (Key ''warn'') \<lparr>data_name = Some ''warn'', cmd_execute = quiet_handler\<rparr>
        (collection_set (Key ''warn'') \<lparr>data_name = Some ''warn'', cmd_execute = failing_handler\<rparr>
           [(Key ''ping'', \<lparr>data_name = Some ''ping'', cmd_execute = quiet_handler\<rparr>)])) (Key ''ping'') =
     Some \<lparr>data_name = Some ''ping'', cmd_execute = quiet_handler\<rparr>"
    unfolding o' by (simp add: collection_get_def)
  have s: "collection_set (Key ''warn'') \<lparr>data_name = Some ''warn'', cmd_execute = quiet_handler\<rparr>
       (commands client_warn) =
     [(Key ''warn'', \<lparr>data_name = Some ''warn'', cmd_execute = quiet_handler\<rparr>),
      (Key ''ping'', \<lparr>data_name = Some ''ping'', cmd_execute = quiet_handler\<rparr>)]"
    by (simp add: client_warn_def client0_def)
  from s g c o show ?thesis by (intro conjI)
qed

text \<open>
  Where every file of a folder has a default export whose \<open>data\<close>, if there, is an
  object, the loop of \<open>loadCommands\<close> does not throw, and a key is in the collection
  afterwards exactly if it was there before or a file has both \<open>execute\<close> and a \<open>data\<close>
  whose name gives that key. A \<open>data\<close> without name is registered under the key
  \<open>undefined\<close>.
\<close>

lemma collection_has_set:
  "collection_has (collection_set k v c) n \<longleftrightarrow> n = k \<or> collection_has c n"
  by (auto simp: collection_has_def collection_set_keys)

lemma load_command_files_with_default:
  assumes "\<forall>f \<in> set files. \<exists>key ex. snd f = Default key ex \<and> key \<noteq> Some Nullish"
  shows "snd (load_command_files files (reg, out)) = None \<and>
         (\<forall>k. collection_has (fst (fst (load_command_files files (reg, out)))) k \<longleftrightarrow>
                collection_has reg k \<or>
                (\<exists>p n h. (p, Default (Some (Data n)) (Some h)) \<in> set files \<and> k = key_of n))"
  using assms
proof (induction files arbitrary: reg out)
  case Nil
  then show ?case by simp
next
  case (Cons f files)
  obtain p cand where f: "f = (p, cand)" by (cases f)
  from Cons.prems f obtain key ex where cand: "cand = Default key ex" "key \<noteq> Some Nullish"
    by auto
  from Cons.prems
  have rest: "\<forall>f \<in> set files. \<exists>key ex. snd f = Default key ex \<and> key \<noteq> Some Nullish"
    by simp
  show ?case
  proof (cases key)
    case None
    with f cand Cons.IH[OF rest] show ?thesis by simp
  next
    case (Some d)
    with cand(2) obtain n where d: "d = Data n" by (cases d) auto
    show ?thesis
    proof (cases ex)
      case None
      with Some d f cand Cons.IH[OF rest] show ?thesis by simp
    next
      case (Some h)
      with \<open>key = Some d\<close> d f cand
        Cons.IH[OF rest, of "collection_set (key_of n) \<lparr>data_name = n, cmd_execute = h\<rparr> reg"
          "out @ [Console Console_log (''Loaded command: '' @ shown n @ '' from '' @ p) None]"]
      show ?thesis by (auto simp: collection_has_set)
    qed
  qed
qed

lemma nameless_command_registered:
  "loadCommands client0
     (Inr [(''util'', [(''util/nameless.ts'', Default (Some (Data None)) (Some quiet_handler))])]) =
     (client0\<lparr>commands := [(Undefined, \<lparr>data_name = None, cmd_execute = quiet_handler\<rparr>)]\<rparr>,
      [Console Console_log ''Loading commands from folders: util'' None,
       Console Console_log ''Loaded command: undefined from util/nameless.ts'' None,
       Console Console_log ''Loaded 1 commands.'' None])"
  by (simp add: loadCommands_def client0_def key_of_def shown_def string_of_nat.simps)

text \<open>
  C9 (where the code departs from it). A button file whose default export has a
  \<open>customId\<close> but no \<open>execute\<close> is skipped by \<open>loadButtons\<close> without any console line,
  while \<open>loadCommands\<close> logs a warning for the same defect. A file without default export
  makes the \<open>in\<close> test throw: \<open>loadCommands\<close> then stops, and the well-formed file after
  it is not registered; in \<open>loadInteractions\<close> the throw out of \<open>loadButtons\<close> also keeps
  \<open>loadModals\<close> from running.
\<close>

theorem malformed_candidates_in_discovery:
  "loadButtons client0 (Some [(''buttons/bad.ts'', Default (Some (Some ''bad'')) None)]) =
     ((client0, []), None) \<and>
   loadCommands client0
     (Inr [(''util'', [(''util/bad.ts'', Default (Some (Data (Some ''bad''))) None)])]) =
     (client0,
      [Console Console_log ''Loading commands from folders: util'' None,
       Console Console_warn ''Command in util/bad.ts is missing required properties.'' None,
       Console Console_log ''Loaded 0 commands.'' None]) \<and>
   loadCommands client0
     (Inr [(''util'', [(''util/named.ts'', NoDefault),
                       (''util/ping.ts'',
                        Default (Some (Data (Some ''ping''))) (Some quiet_handler))])]) =
     (client0,
      [Console Console_log ''Loading commands from folders: util'' None,
       Console Console_error
         (''Error loading commands: TypeError: Cannot use 'in' operator to search for '' @
          [CHR 0x27] @ ''data'' @ [CHR 0x27] @ '' in undefined'') None]) \<and>
   loadInteractions client0 (Some [(''buttons/named.ts'', NoDefault)])
     (Some [(''modals/report.ts'', Default (Some (Some ''report'')) (Some quiet_handler))]) None =
     (client0,
      [Console Console_error ''Error loading interactions:'' (Some (in_undefined ''customId''))])"
  by (simp add: loadButtons_def loadCommands_def loadInteractions_def client0_def
      in_undefined_def string_of_nat.simps)

end
